theory Spec2Isabelle
  imports Main "HOL-Library.Word"
begin

section \<open>The enumerator set and the tag algebra\<close>

text \<open>
  \<^verbatim>\<open>enum class core_types { attn_q, attn_k, ..., sample_tokens, count };\<close>
  A scoped enumeration without an explicit base has the fixed underlying type \<^verbatim>\<open>int\<close>, so
  a value of \<^verbatim>\<open>core_types\<close> is a 32-bit two's complement integer; the named enumerators are
  numbered from 0 in declaration order.
\<close>

type_synonym core_types = "32 word"

definition core_types_names :: "string list" where
  "core_types_names =
    [''attn_q'', ''attn_k'', ''attn_v'', ''attn_output'', ''attn_norm'', ''ffn_gate'', ''ffn_up'',
     ''ffn_down'', ''moe_gate'', ''moe_experts_gate'', ''moe_experts_up'', ''moe_experts_down'',
     ''ffn_norm'', ''token_embd'', ''rope_freqs'', ''output_norm'', ''output'', ''end_of_weights'',
     ''inp_tokens'', ''inp_pos'', ''inp_out_ids'', ''cache_k'', ''cache_v'', ''kq_mask'',
     ''benchmark_data'', ''end_of_input_only'', ''inp_embd_get_rows'', ''end_of_global_inputs'',
     ''norm_rms_norm'', ''attn_norm_mul'', ''qcur_mul_mat'', ''qcur_reshape'', ''qcur_rope'',
     ''kcur_mul_mat'', ''kcur_reshape'', ''kcur_rope'', ''vcur_mul_mat'', ''k_cache_view'',
     ''k_cache_view_copy'', ''vcur_transpose'', ''v_cache_view'', ''v_cache_view_copy'',
     ''v_view'', ''k_view'', ''q_permute'', ''kq_mul_mat'', ''kq_soft_max'', ''kqv_mul_mat'',
     ''kqv_merged_permute'', ''kqv_merged_cont'', ''kqv_out_mul_mat'', ''ffn_inp_add'',
     ''norm_pre_ffn_rms_norm'', ''ffn_norm_mul'', ''ffn_gate_mul_mat'', ''ffn_silu'',
     ''ffn_up_mul_mat'', ''ffn_gate_par_mul'', ''ffn_out_mul_mat'', ''moe_inp_add'',
     ''norm_pre_moe_rms_norm'', ''moe_norm_mul'', ''moe_router_mul_mat'', ''moe_router_softmax'',
     ''moe_expert_select'', ''moe_expert_gate_mul_mat'', ''moe_expert_silu'',
     ''moe_expert_up_mul_mat'', ''moe_expert_gate_par_mul'', ''moe_expert_down_mul_mat'',
     ''moe_expert_weighted_sum'', ''layer_out_add'', ''end_of_per_block'', ''node_1016_get_rows'',
     ''node_1017_get_rows'', ''final_ffn_inp_add'', ''final_norm_pre_rms_norm'',
     ''final_ffn_norm_mul'', ''final_ffn_gate_mul_mat'', ''final_ffn_silu'',
     ''final_ffn_up_mul_mat'', ''final_ffn_gate_par_mul'', ''final_ffn_out_mul_mat'',
     ''final_moe_inp_add'', ''final_norm_pre_moe_rms_norm'', ''final_moe_norm_mul'',
     ''final_moe_router_mul_mat'', ''final_moe_router_softmax'', ''final_moe_expert_select'',
     ''final_moe_expert_gate_mul_mat'', ''final_moe_expert_silu'', ''final_moe_expert_up_mul_mat'',
     ''final_moe_expert_gate_par_mul'', ''final_moe_expert_down_mul_mat'',
     ''final_moe_expert_weighted_sum'', ''final_layer_out_add'', ''final_norm_rms_norm'',
     ''result_norm_mul'', ''result_output_mul_mat'', ''sample_tokens'', ''count'']"

text \<open>The position of the first occurrence of an entry; the length of the list when absent.\<close>

fun index_of :: "'a \<Rightarrow> 'a list \<Rightarrow> nat" where
  "index_of x [] = 0"
| "index_of x (y # ys) = (if x = y then 0 else Suc (index_of x ys))"

text \<open>The value of the enumerator declared under a name.\<close>

definition enumerator :: "string \<Rightarrow> core_types" where
  "enumerator name = of_nat (index_of name core_types_names)"

text \<open>
  The two conversions the source applies between enumerators and their 64-bit encoding:
  \<^verbatim>\<open>static_cast<uint64_t>(e)\<close> on an enumerator sign-extends its \<^verbatim>\<open>int\<close> value, and
  \<^verbatim>\<open>static_cast<core_types>(v)\<close> on a \<^verbatim>\<open>uint64_t\<close> keeps its low 32 bits.
\<close>

definition enum_to_uint64 :: "core_types \<Rightarrow> 64 word" where
  "enum_to_uint64 e = scast e"

definition uint64_to_enum :: "64 word \<Rightarrow> core_types" where
  "uint64_to_enum v = ucast v"

text \<open>
  \<^verbatim>\<open>template<auto index> using tag = std::integral_constant<uint64_t, static_cast<uint64_t>(index)>;\<close>
  The payload of a tag is an enumerator or an unsigned 64-bit integer. A specialisation of
  \<^verbatim>\<open>std::integral_constant<uint64_t, v>\<close> is identified by \<open>v\<close>: two of them are the same type
  exactly when their values are equal.
\<close>

datatype tag_payload = Enum core_types | UInt "64 word"

fun static_cast_uint64 :: "tag_payload \<Rightarrow> 64 word" where
  "static_cast_uint64 (Enum e) = enum_to_uint64 e"
| "static_cast_uint64 (UInt n) = n"

datatype integral_constant = Integral_constant "64 word"

definition tag :: "tag_payload \<Rightarrow> integral_constant" where
  "tag index = Integral_constant (static_cast_uint64 index)"

section \<open>The static diagnostic channel\<close>

datatype cafberiht_errors = get_core_by_index_oob | invalid_base_cast | empty_cafberiht_bases_pack

text \<open>
  The element types of this program: \<^verbatim>\<open>core_interface<enum_value_new>\<close>, one type per
  enumerator value.
\<close>

datatype base_type = Core_interface core_types

text \<open>
  What makes a translation unit fail to build. \<open>Static_assert_printer_impl kind values\<close> is the
  reference to the undefined specialisation
  \<^verbatim>\<open>static_assert_printer_impl<kind, error_printer_val_inserter<values...>>\<close>, whose spelling the
  toolchain prints. The other three are rules of the language the class relies on: a class may
  not name the same direct base twice, and a call of \<^verbatim>\<open>operator[]\<close> needs exactly one viable
  overload.
\<close>

datatype compile_error =
    Static_assert_printer_impl cafberiht_errors "nat list"
  | Duplicate_direct_base
  | No_viable_operator_index integral_constant
  | Ambiguous_operator_index integral_constant

text \<open>
  \<^verbatim>\<open>static_assert_printer<value, enum_error, values...>::impl\<close>: when the condition is false the
  lambda names \<^verbatim>\<open>static_assert_printer_impl<enum_error, values...>::nonexistent_value\<close> and the
  build stops there; otherwise it is \<^verbatim>\<open>true\<close>.
\<close>

definition static_assert_printer :: "bool \<Rightarrow> cafberiht_errors \<Rightarrow> nat list \<Rightarrow> compile_error + bool" where
  "static_assert_printer cond enum_error values =
     (if \<not> cond then Inl (Static_assert_printer_impl enum_error values) else Inr True)"

section \<open>Elements and the container\<close>

text \<open>\<^verbatim>\<open>static constexpr core_types enum_value{ enum_value_new };\<close>\<close>

fun enum_value :: "base_type \<Rightarrow> core_types" where
  "enum_value (Core_interface enum_value_new) = enum_value_new"

text \<open>
  \<^verbatim>\<open>core_elem_base<index, derived_type>::operator[](tag<index>)\<close>: the one overload an element
  type contributes is keyed on the tag of its own enumerator.
\<close>

fun core_elem_base_key :: "base_type \<Rightarrow> integral_constant" where
  "core_elem_base_key (Core_interface enum_value_new) = tag (Enum enum_value_new)"

text \<open>
  An instantiated \<^verbatim>\<open>cafberiht<bases...>\<close> is determined by its pack of bases, in order. The
  object holds one base subobject per entry of the pack; a reference to an element names the
  position of that subobject and whether it is a \<^verbatim>\<open>const\<close> reference.
\<close>

record cafberiht_type =
  bases :: "base_type list"

datatype reference = Reference (is_const: bool) (subobject: nat)

text \<open>
  \<^verbatim>\<open>template<typename... bases> struct cafberiht : public bases...\<close> with its
  \<^verbatim>\<open>static_assert\<close> on \<^verbatim>\<open>sizeof...(bases) > 0\<close>. The base-specifier list comes first: a
  pack that holds one class twice names it twice as a direct base, which no class may do.
\<close>

definition cafberiht :: "base_type list \<Rightarrow> compile_error + cafberiht_type" where
  "cafberiht bs =
     (if \<not> distinct bs then Inl Duplicate_direct_base
      else case static_assert_printer (length bs > 0) empty_cafberiht_bases_pack [] of
             Inl err \<Rightarrow> Inl err
           | Inr _ \<Rightarrow> Inr \<lparr>bases = bs\<rparr>)"

text \<open>\<^verbatim>\<open>static constexpr uint64_t size{ sizeof...(bases) };\<close>\<close>

definition cafberiht_size :: "cafberiht_type \<Rightarrow> nat" where
  "cafberiht_size C = length (bases C)"

text \<open>
  \<^verbatim>\<open>static constexpr uint64_t index_transform_values[sizeof...(bases)]{ static_cast<uint64_t>(bases::enum_value)... };\<close>
\<close>

definition index_transform_values :: "cafberiht_type \<Rightarrow> 64 word list" where
  "index_transform_values C = map (\<lambda>b. enum_to_uint64 (enum_value b)) (bases C)"

text \<open>
  \<^verbatim>\<open>using bases::operator[]...;\<close> merges the overloads of all bases. A call with a tag selects
  the overloads keyed on exactly that tag type: one of them gives a reference to that base
  subobject (\<^verbatim>\<open>*static_cast<derived_type*>(this)\<close>), with the constness of the object
  expression.
\<close>

definition operator_index :: "cafberiht_type \<Rightarrow> bool \<Rightarrow> integral_constant \<Rightarrow> compile_error + reference" where
  "operator_index C const_object t =
     (case filter (\<lambda>i. core_elem_base_key (bases C ! i) = t) [0..<length (bases C)] of
        [] \<Rightarrow> Inl (No_viable_operator_index t)
      | [i] \<Rightarrow> Inr (Reference const_object i)
      | _ \<Rightarrow> Inl (Ambiguous_operator_index t))"

text \<open>\<^verbatim>\<open>get_core_by_enum<enum_value>()\<close>, a non-const member.\<close>

definition get_core_by_enum :: "cafberiht_type \<Rightarrow> core_types \<Rightarrow> compile_error + reference" where
  "get_core_by_enum C e = operator_index C False (tag (UInt (enum_to_uint64 e)))"

text \<open>
  \<^verbatim>\<open>get_core_by_index<index_new>()\<close>, a const member. \<open>index_new\<close> and \<open>size\<close> are
  \<^verbatim>\<open>uint64_t\<close> values that are only compared, so they are natural numbers here.
\<close>

definition get_core_by_index :: "cafberiht_type \<Rightarrow> nat \<Rightarrow> compile_error + reference" where
  "get_core_by_index C index_new =
     (case static_assert_printer (index_new < cafberiht_size C) get_core_by_index_oob [index_new] of
        Inl err \<Rightarrow> Inl err
      | Inr _ \<Rightarrow> operator_index C True (tag (UInt (index_transform_values C ! index_new))))"

text \<open>
  \<^verbatim>\<open>get_index_by_enum<enum_value>()\<close>: the loop over \<open>x = 0, ..., size - 1\<close>. The counter is
  incremented only below \<open>size\<close>, so it never wraps; the value returned after the loop is
  \<^verbatim>\<open>std::numeric_limits<uint64_t>::max()\<close>.
\<close>

function get_index_by_enum_loop :: "cafberiht_type \<Rightarrow> core_types \<Rightarrow> nat \<Rightarrow> nat" where
  "get_index_by_enum_loop C e x =
     (if x < cafberiht_size C
      then (if uint64_to_enum (index_transform_values C ! x) = e then x
            else get_index_by_enum_loop C e (x + 1))
      else 2 ^ 64 - 1)"
  by pat_completeness auto
termination
  by (relation "measure (\<lambda>(C, e, x). cafberiht_size C - x)") auto

definition get_index_by_enum :: "cafberiht_type \<Rightarrow> core_types \<Rightarrow> nat" where
  "get_index_by_enum C e = get_index_by_enum_loop C e 0"

section \<open>Visitors and the walk\<close>

text \<open>
  A mixin \<^verbatim>\<open>mixin_type<base_type>\<close> gives a compile-time \<^verbatim>\<open>filter()\<close> and an action
  \<^verbatim>\<open>impl(base_type&, args...)\<close>. The action runs on the program state \<open>'s\<close>, which holds the
  elements, the arguments of the walk and whatever else the action can reach.
\<close>

record 's mixin_type =
  mixin_filter :: "base_type \<Rightarrow> bool"
  mixin_impl :: "base_type \<Rightarrow> reference \<Rightarrow> 's \<Rightarrow> 's"

text \<open>\<^verbatim>\<open>std::is_base_of_v<base_type, cafberiht>\<close>\<close>

definition is_base_of :: "base_type \<Rightarrow> cafberiht_type \<Rightarrow> bool" where
  "is_base_of b C = (b \<in> set (bases C))"

text \<open>
  \<^verbatim>\<open>impl_internal_filtered<mixin_type, base_type>(args...)\<close>. Instantiating it gives the code
  that runs, or stops the build. The call passes \<^verbatim>\<open>*this\<close> as \<^verbatim>\<open>base_type&\<close>: the subobject
  of that base.
\<close>

definition impl_internal_filtered ::
  "cafberiht_type \<Rightarrow> 's mixin_type \<Rightarrow> base_type \<Rightarrow> compile_error + ('s \<Rightarrow> 's)" where
  "impl_internal_filtered C m b =
     (if mixin_filter m b
      then (case static_assert_printer (is_base_of b C) invalid_base_cast [] of
              Inl err \<Rightarrow> Inl err
            | Inr _ \<Rightarrow> Inr (mixin_impl m b (Reference False (index_of b (bases C)))))
      else Inr (\<lambda>s. s))"

text \<open>
  \<^verbatim>\<open>(impl_internal_filtered<mixin_type, bases>(args...), ...)\<close>: the fold over the comma
  operator runs the calls from left to right.
\<close>

fun impl_fold :: "cafberiht_type \<Rightarrow> 's mixin_type \<Rightarrow> base_type list \<Rightarrow> compile_error + ('s \<Rightarrow> 's)" where
  "impl_fold C m [] = Inr (\<lambda>s. s)"
| "impl_fold C m (b # bs) =
     (case impl_internal_filtered C m b of
        Inl err \<Rightarrow> Inl err
      | Inr first \<Rightarrow>
          (case impl_fold C m bs of
             Inl err \<Rightarrow> Inl err
           | Inr rest \<Rightarrow> Inr (\<lambda>s. rest (first s))))"

definition impl :: "cafberiht_type \<Rightarrow> 's mixin_type \<Rightarrow> compile_error + ('s \<Rightarrow> 's)" where
  "impl C m = impl_fold C m (bases C)"

section \<open>Building the container from an aggregator\<close>

text \<open>
  \<^verbatim>\<open>get_cafberiht_array_t<core_types, aggregator_type, core_interface>\<close>:
  \<^verbatim>\<open>cafberiht<base_type<static_cast<enum_type>(aggregator_type::values[indices])>...>\<close> over the
  indices \<open>0, ..., values.size() - 1\<close>.
\<close>

definition get_cafberiht_array_t :: "64 word list \<Rightarrow> compile_error + cafberiht_type" where
  "get_cafberiht_array_t values =
     cafberiht (map (\<lambda>i. Core_interface (uint64_to_enum (values ! i))) [0..<length values])"

text \<open>
  The enumerators an aggregator names, in order: entry \<open>i\<close> is
  \<^verbatim>\<open>static_cast<enum_type>(aggregator_type::values[i])\<close>, the conversion under which the
  container is built.
\<close>

definition aggregator_entries :: "64 word list \<Rightarrow> core_types list" where
  "aggregator_entries values = map uint64_to_enum values"

text \<open>
  \<^verbatim>\<open>core_aggregator::values\<close>: an array of \<open>cafberiht_width\<close> zeros, filled by
  \<^verbatim>\<open>return_values[x] = x\<close> for \<open>x = 0, ..., cafberiht_width - 1\<close>. The constant
  \<open>cafberiht_width\<close> is declared in \<^verbatim>\<open>config.hpp\<close>; it is a parameter here.
\<close>

definition core_aggregator :: "nat \<Rightarrow> 64 word list" where
  "core_aggregator cafberiht_width =
     fold (\<lambda>x return_values. return_values[x := of_nat x]) [0..<cafberiht_width]
       (replicate cafberiht_width 0)"

section \<open>The worked harness\<close>

text \<open>
  What \<^verbatim>\<open>std::cout << n\<close> writes for an unsigned integer: its decimal digits, most
  significant first, with no leading zero.
\<close>

definition digit :: "nat \<Rightarrow> char" where
  "digit d = ''0123456789'' ! d"

fun decimal :: "nat \<Rightarrow> string" where
  "decimal n = (if n < 10 then [digit n] else decimal (n div 10) @ [digit (n mod 10)])"

declare decimal.simps [simp del]

text \<open>
  The state \<^verbatim>\<open>main\<close> works on: the counters \<^verbatim>\<open>kernel_iteration_count\<close> of the elements of
  \<^verbatim>\<open>cafberiht_val\<close>, the accumulator (\<^verbatim>\<open>value\<close> in \<^verbatim>\<open>main\<close>, \<^verbatim>\<open>output_value\<close> in the
  mixin), the number of calls of \<^verbatim>\<open>rand()\<close> made so far, and the text written to
  \<^verbatim>\<open>std::cout\<close>.
\<close>

record program_state =
  cafberiht_val :: "64 word list"
  output_value :: "64 word"
  rand_calls :: nat
  std_cout :: string

text \<open>
  \<^verbatim>\<open>addition_mixin<base_type>\<close>. The library function \<^verbatim>\<open>rand()\<close> is a parameter: \<open>rand k\<close> is
  the \<^verbatim>\<open>int\<close> its call number \<open>k\<close> returns. \<^verbatim>\<open>output_value += rand()\<close> converts that
  \<^verbatim>\<open>int\<close> to \<^verbatim>\<open>uint64_t\<close> and adds modulo \<open>2^64\<close>.
\<close>

definition addition_mixin :: "(nat \<Rightarrow> 32 word) \<Rightarrow> program_state mixin_type" where
  "addition_mixin rand =
     \<lparr>mixin_filter = (\<lambda>base_type. enum_to_uint64 (enum_value base_type) mod 2 = 0),
      mixin_impl = (\<lambda>base_type elem s.
         s\<lparr>output_value := output_value s + scast (rand (rand_calls s)),
           rand_calls := rand_calls s + 1\<rparr>)\<rparr>"

text \<open>
  \<^verbatim>\<open>main\<close>, for a given \<open>cafberiht_width\<close>: the final state and the exit status, or the
  reason the program does not build. Both numbers are written as unsigned decimal integers,
  and \<^verbatim>\<open>std::endl\<close> ends the line.
\<close>

definition main :: "nat \<Rightarrow> (nat \<Rightarrow> 32 word) \<Rightarrow> compile_error + (program_state \<times> int)" where
  "main cafberiht_width rand =
     (case get_cafberiht_array_t (core_aggregator cafberiht_width) of
        Inl err \<Rightarrow> Inl err
      | Inr cafberiht_t \<Rightarrow>
          (case impl cafberiht_t (addition_mixin rand) of
             Inl err \<Rightarrow> Inl err
           | Inr walk \<Rightarrow>
               (let s0 = \<lparr>cafberiht_val = replicate (cafberiht_size cafberiht_t) 0,
                          output_value = 0, rand_calls = 0, std_cout = []\<rparr>;
                    s1 = walk s0;
                    s2 = s1\<lparr>std_cout := std_cout s1 @ ''Final Value: ''
                            @ decimal (unat (output_value s1))
                            @ '', For Cafberiht Width of: '' @ decimal cafberiht_width
                            @ [CHR 0x0A]\<rparr>
                in Inr (s2, 0))))"

text \<open>
  Two further visitors, used to exercise the walk on concrete containers: one appends the
  element type and the subobject it is handed to a log, the other increments a counter.
\<close>

definition logging_mixin :: "(base_type \<Rightarrow> bool) \<Rightarrow> ((base_type \<times> nat) list) mixin_type" where
  "logging_mixin admit =
     \<lparr>mixin_filter = admit,
      mixin_impl = (\<lambda>base_type elem log. log @ [(base_type, subobject elem)])\<rparr>"

definition counting_mixin :: "(base_type \<Rightarrow> bool) \<Rightarrow> nat mixin_type" where
  "counting_mixin admit =
     \<lparr>mixin_filter = admit,
      mixin_impl = (\<lambda>base_type elem counter. counter + 1)\<rparr>"

section \<open>The tag algebra\<close>

lemma uint64_to_enum_inverse: "uint64_to_enum (enum_to_uint64 e) = e"
  unfolding uint64_to_enum_def enum_to_uint64_def
  by (rule bit_word_eqI) (auto simp add: bit_simps)

lemma enum_to_uint64_inj: "enum_to_uint64 a = enum_to_uint64 b \<longleftrightarrow> a = b"
  by (metis uint64_to_enum_inverse)

text \<open>
  Claim C8, as amended. Two tags are the same type exactly when their payloads have the same
  64-bit value. Between two enumerators that is equality of the enumerators, between two
  integers equality of the integers, and the tag of an enumerator \<open>e\<close> is the same type as
  the tag of the integer \<open>n\<close> exactly when \<open>n\<close> is \<^verbatim>\<open>static_cast<uint64_t>(e)\<close>.
\<close>

theorem tag_eq_iff:
  "(tag a = tag b \<longleftrightarrow> static_cast_uint64 a = static_cast_uint64 b)
   \<and> (tag (Enum e1) = tag (Enum e2) \<longleftrightarrow> e1 = e2)
   \<and> (tag (UInt n1) = tag (UInt n2) \<longleftrightarrow> n1 = n2)
   \<and> (tag (Enum e) = tag (UInt n) \<longleftrightarrow> n = enum_to_uint64 e)"
  by (auto simp add: tag_def enum_to_uint64_inj)

text \<open>
  Claim C8 as stated fails: the tag of the enumerator \<^verbatim>\<open>attn_q\<close> and the tag of the integer
  0 are one and the same type.
\<close>

theorem tag_enum_uint_same_type:
  "enumerator ''attn_q'' = 0 \<and> tag (Enum (enumerator ''attn_q'')) = tag (UInt 0)"
  by (simp add: tag_def enumerator_def core_types_names_def enum_to_uint64_def)

section \<open>Facts about the container\<close>

lemma cafberiht_Inr_iff:
  "cafberiht bs = Inr C \<longleftrightarrow> distinct bs \<and> bs \<noteq> [] \<and> C = \<lparr>bases = bs\<rparr>"
  by (auto simp add: cafberiht_def static_assert_printer_def)

lemma length_aggregator_entries: "length (aggregator_entries A) = length A"
  by (simp add: aggregator_entries_def)

lemma get_cafberiht_array_t_entries:
  "get_cafberiht_array_t values = cafberiht (map Core_interface (aggregator_entries values))"
proof -
  have "map (\<lambda>i. Core_interface (uint64_to_enum (values ! i))) [0..<length values]
        = map Core_interface (aggregator_entries values)"
    by (rule nth_equalityI) (simp_all add: aggregator_entries_def)
  then show ?thesis by (simp add: get_cafberiht_array_t_def)
qed

lemma distinct_map_Core_interface: "distinct (map Core_interface es) \<longleftrightarrow> distinct es"
  by (simp add: distinct_map inj_on_def)

lemma get_cafberiht_array_t_Inr_iff:
  "get_cafberiht_array_t A = Inr C \<longleftrightarrow>
     distinct (aggregator_entries A) \<and> A \<noteq> []
     \<and> C = \<lparr>bases = map Core_interface (aggregator_entries A)\<rparr>"
proof -
  have "aggregator_entries A = [] \<longleftrightarrow> A = []" by (simp add: aggregator_entries_def)
  then show ?thesis
    by (auto simp add: get_cafberiht_array_t_entries cafberiht_Inr_iff distinct_map_Core_interface)
qed

lemma core_elem_base_key_inj: "core_elem_base_key a = core_elem_base_key b \<longleftrightarrow> a = b"
  by (cases a; cases b) (simp add: tag_def enum_to_uint64_inj)

lemma filter_upt_eq: "n < k \<Longrightarrow> filter (\<lambda>i. i = n) [0..<k] = [n]"
  by (induction k) auto

lemma filter_key_unique:
  assumes "distinct bs" "n < length bs"
  shows "filter (\<lambda>i. core_elem_base_key (bs ! i) = core_elem_base_key (bs ! n)) [0..<length bs] = [n]"
proof -
  have "filter (\<lambda>i. core_elem_base_key (bs ! i) = core_elem_base_key (bs ! n)) [0..<length bs]
        = filter (\<lambda>i. i = n) [0..<length bs]"
    using assms by (intro filter_cong) (auto simp add: core_elem_base_key_inj nth_eq_iff_index_eq)
  then show ?thesis using assms by (simp add: filter_upt_eq)
qed

lemma operator_index_own_key:
  assumes "distinct (bases C)" "n < length (bases C)"
  shows "operator_index C c (core_elem_base_key (bases C ! n)) = Inr (Reference c n)"
  using filter_key_unique [OF assms] by (simp add: operator_index_def)

lemma index_transform_values_key:
  assumes "n < length (bases C)"
  shows "tag (UInt (index_transform_values C ! n)) = core_elem_base_key (bases C ! n)"
  using assms by (cases "bases C ! n") (simp add: index_transform_values_def tag_def)

lemma get_core_by_index_in_range:
  assumes "distinct (bases C)" "n < length (bases C)"
  shows "get_core_by_index C n = Inr (Reference True n)"
  using assms operator_index_own_key [OF assms, of True]
  by (simp add: get_core_by_index_def static_assert_printer_def cafberiht_size_def
        index_transform_values_key)

section \<open>Facts about the walk\<close>

lemma index_of_nth: "distinct xs \<Longrightarrow> i < length xs \<Longrightarrow> index_of (xs ! i) xs = i"
proof (induction xs arbitrary: i)
  case Nil
  then show ?case by simp
next
  case (Cons x xs)
  then show ?case by (cases i) auto
qed

lemma impl_internal_filtered_base:
  "b \<in> set (bases C) \<Longrightarrow>
   impl_internal_filtered C m b =
     Inr (if mixin_filter m b then mixin_impl m b (Reference False (index_of b (bases C)))
          else (\<lambda>s. s))"
  by (simp add: impl_internal_filtered_def static_assert_printer_def is_base_of_def)

lemma impl_fold_bases:
  "set bs \<subseteq> set (bases C) \<Longrightarrow>
   impl_fold C m bs =
     Inr (fold (\<lambda>b. mixin_impl m b (Reference False (index_of b (bases C))))
            (filter (mixin_filter m) bs))"
  by (induction bs) (auto simp add: impl_internal_filtered_base fun_eq_iff)

lemma filter_as_positions:
  "filter P bs = map (nth bs) (filter (\<lambda>i. P (bs ! i)) [0..<length bs])"
proof -
  have "map (nth bs) (filter (\<lambda>i. P (bs ! i)) [0..<length bs])
        = filter P (map (nth bs) [0..<length bs])"
    by (simp add: filter_map comp_def)
  then show ?thesis by (simp add: map_nth)
qed

lemma fold_filter_nth:
  assumes "distinct bs"
  shows "fold (\<lambda>b. f b (index_of b bs)) (filter P bs) s
       = fold (\<lambda>i. f (bs ! i) i) (filter (\<lambda>i. P (bs ! i)) [0..<length bs]) s"
proof -
  have "fold (\<lambda>b. f b (index_of b bs)) (filter P bs) s
       = fold (\<lambda>i. f (bs ! i) (index_of (bs ! i) bs)) (filter (\<lambda>i. P (bs ! i)) [0..<length bs]) s"
    by (subst filter_as_positions) (simp add: fold_map comp_def)
  also have "\<dots> = fold (\<lambda>i. f (bs ! i) i) (filter (\<lambda>i. P (bs ! i)) [0..<length bs]) s"
    using assms by (intro fold_cong) (auto simp add: index_of_nth)
  finally show ?thesis .
qed

lemma impl_admitted_indices:
  assumes "distinct (bases C)"
  shows "impl C m =
     Inr (fold (\<lambda>i. mixin_impl m (bases C ! i) (Reference False i))
            (filter (\<lambda>i. mixin_filter m (bases C ! i)) [0..<length (bases C)]))"
proof -
  have "fold (\<lambda>b. mixin_impl m b (Reference False (index_of b (bases C))))
            (filter (mixin_filter m) (bases C))
      = fold (\<lambda>i. mixin_impl m (bases C ! i) (Reference False i))
            (filter (\<lambda>i. mixin_filter m (bases C ! i)) [0..<length (bases C)])"
    by (rule ext)
       (rule fold_filter_nth [OF assms, of "\<lambda>b p. mixin_impl m b (Reference False p)"])
  then show ?thesis by (simp add: impl_def impl_fold_bases)
qed

text \<open>
  Claim C1. On the container built from an aggregator \<open>A\<close>, the walk of a visitor is the
  sequence of the visitor's actions at exactly those positions \<open>i = 0, ..., W - 1\<close> whose
  element type \<^verbatim>\<open>core_interface<A[i]>\<close> passes the visitor's filter, taken in ascending order
  of \<open>i\<close>; each action receives the subobject at its position, and the state (which holds
  the arguments) is handed from one action to the next.
\<close>

theorem impl_walks_admitted_in_order:
  assumes "get_cafberiht_array_t A = Inr C"
  shows "impl C m =
     Inr (\<lambda>s. fold (\<lambda>i. mixin_impl m (Core_interface (aggregator_entries A ! i)) (Reference False i))
                 (filter (\<lambda>i. mixin_filter m (Core_interface (aggregator_entries A ! i))) [0..<length A])
                 s)"
proof -
  from assms have d: "distinct (bases C)"
    and b: "bases C = map Core_interface (aggregator_entries A)"
    by (simp_all add: get_cafberiht_array_t_Inr_iff distinct_map_Core_interface)
  have len: "length (bases C) = length A" by (simp add: b length_aggregator_entries)
  have eq: "\<And>i. i < length A \<Longrightarrow> bases C ! i = Core_interface (aggregator_entries A ! i)"
    by (simp add: b length_aggregator_entries)
  have idx: "filter (\<lambda>i. mixin_filter m (bases C ! i)) [0..<length A]
           = filter (\<lambda>i. mixin_filter m (Core_interface (aggregator_entries A ! i))) [0..<length A]"
    by (rule filter_cong) (simp_all add: eq)
  have "fold (\<lambda>i. mixin_impl m (bases C ! i) (Reference False i))
            (filter (\<lambda>i. mixin_filter m (bases C ! i)) [0..<length (bases C)])
      = fold (\<lambda>i. mixin_impl m (Core_interface (aggregator_entries A ! i)) (Reference False i))
            (filter (\<lambda>i. mixin_filter m (Core_interface (aggregator_entries A ! i))) [0..<length A])"
    unfolding len idx
  proof (rule ext)
    fix s
    show "fold (\<lambda>i. mixin_impl m (bases C ! i) (Reference False i))
            (filter (\<lambda>i. mixin_filter m (Core_interface (aggregator_entries A ! i))) [0..<length A]) s
        = fold (\<lambda>i. mixin_impl m (Core_interface (aggregator_entries A ! i)) (Reference False i))
            (filter (\<lambda>i. mixin_filter m (Core_interface (aggregator_entries A ! i))) [0..<length A]) s"
      by (rule fold_cong) (simp_all add: eq)
  qed
  with impl_admitted_indices [OF d, of m] show ?thesis by simp
qed

theorem impl_walks_admitted_in_order_witness:
  "get_cafberiht_array_t [7, 4, 2, 9]
     = Inr \<lparr>bases = [Core_interface 7, Core_interface 4, Core_interface 2, Core_interface 9]\<rparr>
   \<and> (\<exists>walk. impl \<lparr>bases = [Core_interface 7, Core_interface 4, Core_interface 2, Core_interface 9]\<rparr>
                (logging_mixin (\<lambda>b. enum_to_uint64 (enum_value b) mod 2 = 0)) = Inr walk
            \<and> walk [] = [(Core_interface 4, 1), (Core_interface 2, 2)])"
proof -
  have wf: "get_cafberiht_array_t [7, 4, 2, 9]
     = Inr \<lparr>bases = [Core_interface 7, Core_interface 4, Core_interface 2, Core_interface 9]\<rparr>"
    by (simp add: get_cafberiht_array_t_Inr_iff aggregator_entries_def uint64_to_enum_def)
  show ?thesis
    using wf impl_walks_admitted_in_order [OF wf, of "logging_mixin (\<lambda>b. enum_to_uint64 (enum_value b) mod 2 = 0)"]
    by (simp add: logging_mixin_def aggregator_entries_def uint64_to_enum_def enum_to_uint64_def)
qed

text \<open>
  Claim C7. When the filter of a visitor rejects every element type of the container, the walk
  is the code that does nothing: no action is called, and the state, with the arguments and
  the elements in it, is returned as it was.
\<close>

theorem walk_none_admitted:
  assumes "get_cafberiht_array_t A = Inr C" "\<forall>b \<in> set (bases C). \<not> mixin_filter m b"
  shows "impl C m = Inr (\<lambda>s. s)"
proof -
  from assms(2) have "filter (mixin_filter m) (bases C) = []" by (simp add: filter_empty_conv)
  then show ?thesis by (simp add: impl_def impl_fold_bases fun_eq_iff)
qed

theorem walk_none_admitted_witness:
  "get_cafberiht_array_t [0, 1, 2, 3]
     = Inr \<lparr>bases = [Core_interface 0, Core_interface 1, Core_interface 2, Core_interface 3]\<rparr>
   \<and> (\<exists>walk. impl \<lparr>bases = [Core_interface 0, Core_interface 1, Core_interface 2, Core_interface 3]\<rparr>
                (counting_mixin (\<lambda>b. False)) = Inr walk
            \<and> walk 41 = 41)"
proof -
  have wf: "get_cafberiht_array_t [0, 1, 2, 3]
     = Inr \<lparr>bases = [Core_interface 0, Core_interface 1, Core_interface 2, Core_interface 3]\<rparr>"
    by (simp add: get_cafberiht_array_t_Inr_iff aggregator_entries_def uint64_to_enum_def)
  have none: "\<forall>b \<in> set (bases \<lparr>bases = [Core_interface 0, Core_interface 1, Core_interface 2, Core_interface 3]\<rparr>).
                \<not> mixin_filter (counting_mixin (\<lambda>b. False)) b"
    by (simp add: counting_mixin_def)
  show ?thesis
    using wf walk_none_admitted [OF wf none] by simp
qed

text \<open>
  Claim C10. In a walk started through \<^verbatim>\<open>impl\<close>, \<open>base_type\<close> ranges over the container's own
  pack of bases, so the guard \<^verbatim>\<open>std::is_base_of_v<base_type, cafberiht>\<close> holds at every call
  of \<^verbatim>\<open>impl_internal_filtered\<close>, the check on it passes, and the walk builds: the diagnostic
  \<^verbatim>\<open>invalid_base_cast\<close> cannot come out of it.
\<close>

theorem invalid_base_cast_unreachable:
  assumes "cafberiht bs = Inr C"
  shows "(\<forall>b \<in> set (bases C). is_base_of b C
            \<and> static_assert_printer (is_base_of b C) invalid_base_cast [] = Inr True
            \<and> (\<exists>call. impl_internal_filtered C m b = Inr call))
       \<and> (\<exists>walk. impl C m = Inr walk)"
  by (simp add: is_base_of_def static_assert_printer_def impl_internal_filtered_base impl_def
        impl_fold_bases)

theorem invalid_base_cast_unreachable_witness:
  "cafberiht [Core_interface 3, Core_interface 1] = Inr \<lparr>bases = [Core_interface 3, Core_interface 1]\<rparr>
   \<and> is_base_of (Core_interface 1) \<lparr>bases = [Core_interface 3, Core_interface 1]\<rparr>
   \<and> (\<exists>call. impl_internal_filtered \<lparr>bases = [Core_interface 3, Core_interface 1]\<rparr>
                (counting_mixin (\<lambda>b. True)) (Core_interface 1) = Inr call)
   \<and> (\<exists>walk. impl \<lparr>bases = [Core_interface 3, Core_interface 1]\<rparr> (counting_mixin (\<lambda>b. True)) = Inr walk)"
proof -
  have wf: "cafberiht [Core_interface 3, Core_interface 1] = Inr \<lparr>bases = [Core_interface 3, Core_interface 1]\<rparr>"
    by (simp add: cafberiht_Inr_iff)
  show ?thesis
    using wf invalid_base_cast_unreachable [OF wf, of "counting_mixin (\<lambda>b. True)"] by simp
qed

section \<open>Facts about the position query\<close>

lemma loop_absent:
  "\<forall>i. x \<le> i \<and> i < cafberiht_size C \<longrightarrow> uint64_to_enum (index_transform_values C ! i) \<noteq> e
   \<Longrightarrow> get_index_by_enum_loop C e x = 2 ^ 64 - 1"
proof (induction C e x rule: get_index_by_enum_loop.induct)
  case (1 C e x)
  show ?case
  proof (cases "x < cafberiht_size C")
    case True
    with "1.prems" have ne: "uint64_to_enum (index_transform_values C ! x) \<noteq> e" by simp
    from "1.prems"
    have "\<forall>i. x + 1 \<le> i \<and> i < cafberiht_size C \<longrightarrow> uint64_to_enum (index_transform_values C ! i) \<noteq> e"
      by simp
    with "1.IH" [OF True ne] True ne show ?thesis by simp
  next
    case False
    then show ?thesis by simp
  qed
qed

lemma loop_present:
  "x \<le> k \<Longrightarrow> k < cafberiht_size C \<Longrightarrow> uint64_to_enum (index_transform_values C ! k) = e
   \<Longrightarrow> \<forall>j. x \<le> j \<and> j < k \<longrightarrow> uint64_to_enum (index_transform_values C ! j) \<noteq> e
   \<Longrightarrow> get_index_by_enum_loop C e x = k"
proof (induction C e x rule: get_index_by_enum_loop.induct)
  case (1 C e x)
  show ?case
  proof (cases "x = k")
    case True
    with "1.prems" show ?thesis by simp
  next
    case False
    with "1.prems" have lt: "x < k" and xs: "x < cafberiht_size C" by simp_all
    with "1.prems" have ne: "uint64_to_enum (index_transform_values C ! x) \<noteq> e" by simp
    have "get_index_by_enum_loop C e (x + 1) = k"
      using "1.prems" lt by (intro "1.IH" [OF xs ne]) simp_all
    with xs ne show ?thesis by simp
  qed
qed

lemma index_transform_values_entry:
  "bases C = map Core_interface es \<Longrightarrow> i < length es \<Longrightarrow>
   uint64_to_enum (index_transform_values C ! i) = es ! i"
  by (simp add: index_transform_values_def uint64_to_enum_inverse)

text \<open>
  Claim C2. Take the container whose pack of bases is the one \<^verbatim>\<open>get_cafberiht_array_t\<close> makes
  from the aggregator \<open>A\<close>, and any enumerator \<open>e\<close>. If no entry of \<open>A\<close> is \<open>e\<close>, the query
  returns \<open>2^64 - 1\<close>. Otherwise it returns a position below \<open>W\<close> that holds \<open>e\<close> and that no
  position holding \<open>e\<close> precedes. The query is a function of the container type and \<open>e\<close>
  alone, and its loop ends on every input.
\<close>

theorem get_index_by_enum_smallest:
  assumes "bases C = map Core_interface (aggregator_entries A)"
  shows "(e \<notin> set (aggregator_entries A) \<longrightarrow> get_index_by_enum C e = 2 ^ 64 - 1)
       \<and> (e \<in> set (aggregator_entries A) \<longrightarrow>
            get_index_by_enum C e < length A
          \<and> aggregator_entries A ! get_index_by_enum C e = e
          \<and> (\<forall>j < get_index_by_enum C e. aggregator_entries A ! j \<noteq> e))"
proof -
  let ?es = "aggregator_entries A"
  have size: "cafberiht_size C = length A"
    by (simp add: assms cafberiht_size_def length_aggregator_entries)
  have entry: "\<And>i. i < length A \<Longrightarrow> uint64_to_enum (index_transform_values C ! i) = ?es ! i"
    using assms by (simp add: index_transform_values_entry length_aggregator_entries)
  show ?thesis
  proof (intro conjI impI)
    assume "e \<notin> set ?es"
    then have "\<forall>i. 0 \<le> i \<and> i < cafberiht_size C \<longrightarrow> uint64_to_enum (index_transform_values C ! i) \<noteq> e"
      by (auto simp add: size entry length_aggregator_entries)
    then show "get_index_by_enum C e = 2 ^ 64 - 1"
      unfolding get_index_by_enum_def by (rule loop_absent)
  next
    assume "e \<in> set ?es"
    then obtain i where i: "i < length A" "?es ! i = e"
      by (auto simp add: in_set_conv_nth length_aggregator_entries)
    define k where "k = (LEAST i. i < length A \<and> ?es ! i = e)"
    have k: "k < length A \<and> ?es ! k = e"
      unfolding k_def using i by (intro LeastI [of "\<lambda>i. i < length A \<and> ?es ! i = e" i]) simp
    have least: "\<And>j. j < k \<Longrightarrow> ?es ! j \<noteq> e"
    proof
      fix j assume "j < k" "?es ! j = e"
      with k have "j < length A \<and> ?es ! j = e" by simp
      then have "k \<le> j" unfolding k_def by (rule Least_le)
      with \<open>j < k\<close> show False by simp
    qed
    have "get_index_by_enum_loop C e 0 = k"
      using k least by (intro loop_present) (auto simp add: size entry)
    then have r: "get_index_by_enum C e = k" by (simp add: get_index_by_enum_def)
    show "get_index_by_enum C e < length A" using k r by simp
    show "?es ! get_index_by_enum C e = e" using k r by simp
    show "\<forall>j < get_index_by_enum C e. ?es ! j \<noteq> e" using least r by simp
  qed
qed

theorem get_index_by_enum_smallest_witness:
  "get_cafberiht_array_t [5, 3, 8] = Inr \<lparr>bases = [Core_interface 5, Core_interface 3, Core_interface 8]\<rparr>
   \<and> get_index_by_enum \<lparr>bases = [Core_interface 5, Core_interface 3, Core_interface 8]\<rparr> 4 = 2 ^ 64 - 1
   \<and> get_index_by_enum \<lparr>bases = [Core_interface 5, Core_interface 3, Core_interface 8]\<rparr> 8 = 2
   \<and> get_index_by_enum \<lparr>bases = [Core_interface 5, Core_interface 3, Core_interface 8]\<rparr> 8 < 3
   \<and> [5, 3, 8 :: core_types]
       ! get_index_by_enum \<lparr>bases = [Core_interface 5, Core_interface 3, Core_interface 8]\<rparr> 8 = 8"
proof -
  let ?C = "\<lparr>bases = [Core_interface 5, Core_interface 3, Core_interface 8]\<rparr>"
  have wf: "get_cafberiht_array_t [5, 3, 8] = Inr ?C"
    by (simp add: get_cafberiht_array_t_Inr_iff aggregator_entries_def uint64_to_enum_def)
  have b: "bases ?C = map Core_interface (aggregator_entries [5, 3, 8])"
    by (simp add: aggregator_entries_def uint64_to_enum_def)
  have p: "get_index_by_enum ?C 8 = 2"
    by (simp add: get_index_by_enum_def cafberiht_size_def index_transform_values_def
          uint64_to_enum_def enum_to_uint64_def)
  show ?thesis
    using wf p get_index_by_enum_smallest [OF b, of 4] get_index_by_enum_smallest [OF b, of 8]
    by (simp add: aggregator_entries_def uint64_to_enum_def)
qed

section \<open>Access by tag and by position\<close>

text \<open>
  Claim C3. For an aggregator \<open>A\<close> whose entries are pairwise distinct and a position
  \<open>i < W\<close>, the container builds, and \<^verbatim>\<open>get_core_by_index<i>()\<close>,
  \<^verbatim>\<open>get_core_by_enum<A[i]>()\<close> and \<^verbatim>\<open>operator[]\<close> on the tag of the enumerator \<open>A[i]\<close> (on a
  const or a non-const container) all refer to one and the same base subobject \<open>p\<close>.
\<close>

theorem tag_access_aliases_positional_access:
  assumes "distinct (aggregator_entries A)" "i < length A"
  shows "\<exists>C p. get_cafberiht_array_t A = Inr C
       \<and> get_core_by_index C i = Inr (Reference True p)
       \<and> get_core_by_enum C (aggregator_entries A ! i) = Inr (Reference False p)
       \<and> operator_index C False (tag (Enum (aggregator_entries A ! i))) = Inr (Reference False p)
       \<and> operator_index C True (tag (Enum (aggregator_entries A ! i))) = Inr (Reference True p)"
proof -
  let ?es = "aggregator_entries A"
  let ?C = "\<lparr>bases = map Core_interface ?es\<rparr>"
  from assms have wf: "get_cafberiht_array_t A = Inr ?C"
    by (auto simp add: get_cafberiht_array_t_Inr_iff)
  have d: "distinct (bases ?C)" using assms by (simp add: distinct_map_Core_interface)
  have n: "i < length (bases ?C)" using assms by (simp add: length_aggregator_entries)
  have key: "core_elem_base_key (bases ?C ! i) = tag (Enum (?es ! i))"
    using assms by (simp add: length_aggregator_entries)
  have own: "\<And>c. operator_index ?C c (tag (Enum (?es ! i))) = Inr (Reference c i)"
    using operator_index_own_key [OF d n] by (simp only: key)
  have pos: "get_core_by_index ?C i = Inr (Reference True i)"
    by (rule get_core_by_index_in_range [OF d n])
  have enum: "get_core_by_enum ?C (?es ! i) = Inr (Reference False i)"
    using own [of False] by (simp add: get_core_by_enum_def tag_def)
  from wf pos enum own show ?thesis by blast
qed

theorem tag_access_aliases_positional_access_witness:
  "distinct (aggregator_entries [5, 3, 8]) \<and> (1::nat) < length [5, 3, 8 :: 64 word]
   \<and> (\<exists>p. get_core_by_index \<lparr>bases = [Core_interface 5, Core_interface 3, Core_interface 8]\<rparr> 1
             = Inr (Reference True p)
          \<and> get_core_by_enum \<lparr>bases = [Core_interface 5, Core_interface 3, Core_interface 8]\<rparr> 3
             = Inr (Reference False p)
          \<and> operator_index \<lparr>bases = [Core_interface 5, Core_interface 3, Core_interface 8]\<rparr> False
               (tag (Enum 3)) = Inr (Reference False p))"
proof -
  have d: "distinct (aggregator_entries [5, 3, 8])"
    by (simp add: aggregator_entries_def uint64_to_enum_def)
  have i: "(1::nat) < length [5, 3, 8 :: 64 word]" by simp
  have wf: "get_cafberiht_array_t [5, 3, 8]
            = Inr \<lparr>bases = [Core_interface 5, Core_interface 3, Core_interface 8]\<rparr>"
    by (simp add: get_cafberiht_array_t_Inr_iff aggregator_entries_def uint64_to_enum_def)
  have e: "aggregator_entries [5, 3, 8] ! 1 = 3"
    by (simp add: aggregator_entries_def uint64_to_enum_def)
  from tag_access_aliases_positional_access [OF d i] d i show ?thesis
    unfolding wf e by auto
qed

text \<open>
  Claim C4, as amended. For an aggregator \<open>A\<close> whose entries are pairwise distinct and a
  position \<open>n < W\<close>, the container builds and \<^verbatim>\<open>get_core_by_index<n>()\<close> is a const reference
  to the base subobject at position \<open>n\<close>, whose type is \<^verbatim>\<open>core_interface<A[n]>\<close>. An
  aggregator with two equal entries names one class twice as a direct base: the container does
  not build, so there is no positional access either.
\<close>

theorem get_core_by_index_nth:
  "(distinct (aggregator_entries A) \<and> n < length A \<longrightarrow>
      (\<exists>C. get_cafberiht_array_t A = Inr C
          \<and> get_core_by_index C n = Inr (Reference True n)
          \<and> bases C ! n = Core_interface (aggregator_entries A ! n)))
   \<and> (\<not> distinct (aggregator_entries A) \<longrightarrow> get_cafberiht_array_t A = Inl Duplicate_direct_base)"
proof (intro conjI impI)
  assume a: "distinct (aggregator_entries A) \<and> n < length A"
  let ?es = "aggregator_entries A"
  let ?C = "\<lparr>bases = map Core_interface ?es\<rparr>"
  from a have wf: "get_cafberiht_array_t A = Inr ?C"
    by (auto simp add: get_cafberiht_array_t_Inr_iff)
  have d: "distinct (bases ?C)" using a by (simp add: distinct_map_Core_interface)
  have n: "n < length (bases ?C)" using a by (simp add: length_aggregator_entries)
  have "get_core_by_index ?C n = Inr (Reference True n)"
    by (rule get_core_by_index_in_range [OF d n])
  moreover have "bases ?C ! n = Core_interface (?es ! n)"
    using a by (simp add: length_aggregator_entries)
  ultimately show "\<exists>C. get_cafberiht_array_t A = Inr C
          \<and> get_core_by_index C n = Inr (Reference True n)
          \<and> bases C ! n = Core_interface (aggregator_entries A ! n)"
    using wf by blast
next
  assume "\<not> distinct (aggregator_entries A)"
  then show "get_cafberiht_array_t A = Inl Duplicate_direct_base"
    by (simp add: get_cafberiht_array_t_entries cafberiht_def distinct_map_Core_interface)
qed

theorem get_core_by_index_nth_witness:
  "distinct (aggregator_entries [5, 3, 8]) \<and> (2::nat) < length [5, 3, 8 :: 64 word]
   \<and> get_core_by_index \<lparr>bases = [Core_interface 5, Core_interface 3, Core_interface 8]\<rparr> 2
       = Inr (Reference True 2)
   \<and> \<not> distinct (aggregator_entries [5, 3, 5])
   \<and> get_cafberiht_array_t [5, 3, 5] = Inl Duplicate_direct_base"
proof -
  have d: "distinct (aggregator_entries [5, 3, 8])"
    by (simp add: aggregator_entries_def uint64_to_enum_def)
  have n: "(2::nat) < length [5, 3, 8 :: 64 word]" by simp
  have nd: "\<not> distinct (aggregator_entries [5, 3, 5])"
    by (simp add: aggregator_entries_def uint64_to_enum_def)
  have wf: "get_cafberiht_array_t [5, 3, 8]
            = Inr \<lparr>bases = [Core_interface 5, Core_interface 3, Core_interface 8]\<rparr>"
    by (simp add: get_cafberiht_array_t_Inr_iff aggregator_entries_def uint64_to_enum_def)
  from get_core_by_index_nth [of "[5, 3, 8]" 2] get_core_by_index_nth [of "[5, 3, 5]" 0] d n nd
  show ?thesis unfolding wf by auto
qed

text \<open>
  Claim C4 as stated fails. The aggregator \<open>(5, 5)\<close> has width 2 and a duplicated entry: the
  container does not build, and on its pack of bases the call of \<^verbatim>\<open>operator[]\<close> that
  \<^verbatim>\<open>get_core_by_index<0>()\<close> makes finds two overloads.
\<close>

theorem get_core_by_index_duplicate_entries:
  "(0::nat) < length [5, 5 :: 64 word]
   \<and> get_cafberiht_array_t [5, 5] = Inl Duplicate_direct_base
   \<and> cafberiht [Core_interface 5, Core_interface 5] = Inl Duplicate_direct_base
   \<and> get_core_by_index \<lparr>bases = [Core_interface 5, Core_interface 5]\<rparr> 0
       = Inl (Ambiguous_operator_index (tag (UInt 5)))"
  by (simp add: get_cafberiht_array_t_def cafberiht_def uint64_to_enum_def get_core_by_index_def
        static_assert_printer_def cafberiht_size_def index_transform_values_def operator_index_def
        tag_def enum_to_uint64_def)

section \<open>Diagnostics\<close>

text \<open>
  Claim C5. On a container of width \<open>W\<close>, \<^verbatim>\<open>get_core_by_index<n>()\<close> with \<open>n \<ge> W\<close> stops
  the build at \<^verbatim>\<open>static_assert_printer_impl<get_core_by_index_oob, error_printer_val_inserter<n>>\<close>:
  the kind is \<^verbatim>\<open>get_core_by_index_oob\<close> and the value carried is \<open>n\<close> itself. With \<open>n < W\<close>
  the call builds and gives a reference.
\<close>

theorem get_core_by_index_oob_diagnostic:
  assumes "cafberiht bs = Inr C"
  shows "(cafberiht_size C \<le> n \<longrightarrow>
            get_core_by_index C n = Inl (Static_assert_printer_impl get_core_by_index_oob [n]))
       \<and> (n < cafberiht_size C \<longrightarrow> (\<exists>r. get_core_by_index C n = Inr r))"
proof (intro conjI impI)
  assume "cafberiht_size C \<le> n"
  then show "get_core_by_index C n = Inl (Static_assert_printer_impl get_core_by_index_oob [n])"
    by (simp add: get_core_by_index_def static_assert_printer_def)
next
  assume n: "n < cafberiht_size C"
  from assms have d: "distinct (bases C)" by (auto simp add: cafberiht_Inr_iff)
  from n have n': "n < length (bases C)" by (simp add: cafberiht_size_def)
  from get_core_by_index_in_range [OF d n'] show "\<exists>r. get_core_by_index C n = Inr r" by blast
qed

theorem get_core_by_index_oob_diagnostic_witness:
  "cafberiht [Core_interface 0, Core_interface 1] = Inr \<lparr>bases = [Core_interface 0, Core_interface 1]\<rparr>
   \<and> cafberiht_size \<lparr>bases = [Core_interface 0, Core_interface 1]\<rparr> = 2
   \<and> get_core_by_index \<lparr>bases = [Core_interface 0, Core_interface 1]\<rparr> 2
       = Inl (Static_assert_printer_impl get_core_by_index_oob [2])
   \<and> (\<exists>r. get_core_by_index \<lparr>bases = [Core_interface 0, Core_interface 1]\<rparr> 1 = Inr r)"
proof -
  have wf: "cafberiht [Core_interface 0, Core_interface 1]
            = Inr \<lparr>bases = [Core_interface 0, Core_interface 1]\<rparr>"
    by (simp add: cafberiht_Inr_iff)
  have sz: "cafberiht_size \<lparr>bases = [Core_interface 0, Core_interface 1]\<rparr> = 2"
    by (simp add: cafberiht_size_def)
  from get_core_by_index_oob_diagnostic [OF wf, of 2] get_core_by_index_oob_diagnostic [OF wf, of 1]
  show ?thesis unfolding sz using wf by simp
qed

text \<open>
  Claim C6. An empty aggregator, that is an empty pack of bases, stops the build at
  \<^verbatim>\<open>static_assert_printer_impl<empty_cafberiht_bases_pack>\<close>. For a pack of width
  \<open>W \<ge> 1\<close> the check on \<^verbatim>\<open>sizeof...(bases) > 0\<close> passes, and no build of the container
  ends in that diagnostic.
\<close>

theorem empty_bases_pack_diagnostic:
  "(length A = 0 \<longrightarrow>
      get_cafberiht_array_t A = Inl (Static_assert_printer_impl empty_cafberiht_bases_pack [])
    \<and> cafberiht [] = Inl (Static_assert_printer_impl empty_cafberiht_bases_pack []))
   \<and> (1 \<le> length bs \<longrightarrow>
      static_assert_printer (length bs > 0) empty_cafberiht_bases_pack [] = Inr True
    \<and> (\<forall>vs. cafberiht bs \<noteq> Inl (Static_assert_printer_impl empty_cafberiht_bases_pack vs)))"
  by (auto simp add: get_cafberiht_array_t_def cafberiht_def static_assert_printer_def)

theorem empty_bases_pack_diagnostic_witness:
  "length ([] :: 64 word list) = 0
   \<and> get_cafberiht_array_t [] = Inl (Static_assert_printer_impl empty_cafberiht_bases_pack [])
   \<and> 1 \<le> length [Core_interface 7]
   \<and> static_assert_printer (length [Core_interface 7] > 0) empty_cafberiht_bases_pack [] = Inr True
   \<and> cafberiht [Core_interface 7] \<noteq> Inl (Static_assert_printer_impl empty_cafberiht_bases_pack [])"
  using empty_bases_pack_diagnostic [of "[]" "[Core_interface 7]"] by simp

section \<open>The run of the harness\<close>

lemma digit_in_digits: "d < 10 \<Longrightarrow> digit d \<in> set ''0123456789''"
  unfolding digit_def by (rule nth_mem) simp

lemma decimal_digits: "decimal n \<noteq> [] \<and> list_all (\<lambda>c. c \<in> set ''0123456789'') (decimal n)"
proof (induction n rule: decimal.induct)
  case (1 n)
  show ?case
  proof (cases "n < 10")
    case True
    then show ?thesis using digit_in_digits [of n] by (subst (1 2) decimal.simps) simp
  next
    case False
    with "1.IH" digit_in_digits [of "n mod 10"] show ?thesis
      by (subst (1 2) decimal.simps) simp
  qed
qed

lemma upt_10: "[0..<10] = [0, 1, 2, 3, 4, 5, 6, 7, 8, 9 :: nat]"
  by code_simp

lemma core_aggregator_10: "core_aggregator 10 = [0, 1, 2, 3, 4, 5, 6, 7, 8, 9]"
  by code_simp

lemma decimal_10: "decimal 10 = ''10''"
  by code_simp

lemma container_10:
  "get_cafberiht_array_t (core_aggregator 10) =
     Inr \<lparr>bases = map Core_interface [0, 1, 2, 3, 4, 5, 6, 7, 8, 9]\<rparr>"
  by (simp add: core_aggregator_10 get_cafberiht_array_t_Inr_iff aggregator_entries_def
        uint64_to_enum_def)

lemma admitted_10:
  "filter (\<lambda>i. mixin_filter (addition_mixin rand)
                 (map Core_interface [0, 1, 2, 3, 4, 5, 6, 7, 8, 9] ! i)) [0..<10]
   = [0, 2, 4, 6, 8]"
  by (simp add: upt_10 addition_mixin_def enum_to_uint64_def)

text \<open>
  Claim C9. With \<open>cafberiht_width = 10\<close> the program builds; the walk of \<^verbatim>\<open>addition_mixin\<close>
  is the sequence of its action at the positions 0, 2, 4, 6, 8 and nothing else, so \<^verbatim>\<open>rand()\<close>
  is called five times and the accumulator ends as the sum of the five results; the output is
  the single line \<^verbatim>\<open>Final Value: <decimal>, For Cafberiht Width of: 10\<close> with its newline, where
  the decimal is a non-empty string of digits; and the exit status is 0. This holds whatever
  \<^verbatim>\<open>rand()\<close> returns.
\<close>

theorem main_width_10:
  "get_cafberiht_array_t (core_aggregator 10)
     = Inr \<lparr>bases = map Core_interface [0, 1, 2, 3, 4, 5, 6, 7, 8, 9]\<rparr>
   \<and> impl \<lparr>bases = map Core_interface [0, 1, 2, 3, 4, 5, 6, 7, 8, 9]\<rparr> (addition_mixin rand)
       = Inr (fold (\<lambda>i. mixin_impl (addition_mixin rand)
                          (map Core_interface [0, 1, 2, 3, 4, 5, 6, 7, 8, 9] ! i) (Reference False i))
                [0, 2, 4, 6, 8])
   \<and> main 10 rand =
       Inr (\<lparr>cafberiht_val = replicate 10 0,
             output_value = scast (rand 0) + scast (rand 1) + scast (rand 2) + scast (rand 3)
                            + scast (rand 4),
             rand_calls = 5,
             std_cout = ''Final Value: ''
               @ decimal (unat (scast (rand 0) + scast (rand 1) + scast (rand 2) + scast (rand 3)
                                + scast (rand 4) :: 64 word))
               @ '', For Cafberiht Width of: 10'' @ [CHR 0x0A]\<rparr>, 0)
   \<and> decimal (unat (scast (rand 0) + scast (rand 1) + scast (rand 2) + scast (rand 3)
                     + scast (rand 4) :: 64 word)) \<noteq> []
   \<and> list_all (\<lambda>c. c \<in> set ''0123456789'')
        (decimal (unat (scast (rand 0) + scast (rand 1) + scast (rand 2) + scast (rand 3)
                        + scast (rand 4) :: 64 word)))"
proof -
  let ?C = "\<lparr>bases = map Core_interface [0, 1, 2, 3, 4, 5, 6, 7, 8, 9]\<rparr>"
  have d: "distinct (bases ?C)" by simp
  have len: "length (map Core_interface [0, 1, 2, 3, 4, 5, 6, 7, 8, 9]) = 10" by simp
  have b: "bases ?C = map Core_interface [0, 1, 2, 3, 4, 5, 6, 7, 8, 9]" by simp
  have walk: "impl ?C (addition_mixin rand)
       = Inr (fold (\<lambda>i. mixin_impl (addition_mixin rand)
                          (map Core_interface [0, 1, 2, 3, 4, 5, 6, 7, 8, 9] ! i) (Reference False i))
                [0, 2, 4, 6, 8])"
    using impl_admitted_indices [OF d, of "addition_mixin rand"]
    unfolding b len admitted_10 .
  have run: "main 10 rand =
       Inr (\<lparr>cafberiht_val = replicate 10 0,
             output_value = scast (rand 0) + scast (rand 1) + scast (rand 2) + scast (rand 3)
                            + scast (rand 4),
             rand_calls = 5,
             std_cout = ''Final Value: ''
               @ decimal (unat (scast (rand 0) + scast (rand 1) + scast (rand 2) + scast (rand 3)
                                + scast (rand 4) :: 64 word))
               @ '', For Cafberiht Width of: 10'' @ [CHR 0x0A]\<rparr>, 0)"
    unfolding main_def container_10 walk sum.case
    by (simp add: cafberiht_size_def addition_mixin_def decimal_10 Let_def)
       (simp add: eval_nat_numeral)
  show ?thesis using container_10 walk run decimal_digits by blast
qed

end
